theory Spec2Isabelle
  imports Main "HOL-Library.Word" "HOL-Library.Char_ord" "HOL-Library.List_Lexorder"
begin

section \<open>Values exchanged with the backing engine\<close>

text \<open>
  A Go \<^verbatim>\<open>[]byte\<close> is a list of bytes; the nil slice and the empty slice are both \<open>[]\<close>.
  A Go \<^verbatim>\<open>int\<close> is modelled by \<open>int\<close>: the adapter does no arithmetic on it, it only
  compares it with 0 and prints it.
\<close>

type_synonym bytes = "8 word list"

text \<open>
  Errors are values. \<open>ErrNoRows\<close> is \<^verbatim>\<open>pgx.ErrNoRows\<close>, \<open>ErrNotFound\<close> is
  \<^verbatim>\<open>ds.ErrNotFound\<close>, every other failure of the engine or of decoding a column is a
  \<open>BackendError\<close> with its message.
\<close>

datatype error = ErrNoRows | ErrNotFound | BackendError string

text \<open>A bound statement parameter and a column of a returned row.\<close>

datatype arg = AText string | ABytea bytes

datatype col = CText string | CInt int | CBytea bytes | CBool bool

text \<open>A statement as handed to the engine: the SQL text and the bound parameters.\<close>

record queued =
  sql :: string
  arguments :: "arg list"

section \<open>Key codec\<close>

text \<open>
  A \<^verbatim>\<open>ds.Key\<close> is handled only through \<^verbatim>\<open>key.String()\<close>, so a key is its string.
  \<^verbatim>\<open>ds.NewKey(s).String()\<close> belongs to the go-datastore library, not to this repository:
  the empty string becomes the root, any other string is rooted and passed through Go's
  \<^verbatim>\<open>path.Clean\<close>. For a rooted path that function drops empty and \<open>.\<close> elements, lets
  \<open>..\<close> remove the element before it (and nothing at the root), and joins what is left
  with single slashes.
\<close>

type_synonym key = string

fun split_slash :: "string \<Rightarrow> string list" where
  "split_slash [] = [[]]"
| "split_slash (c # cs) =
     (if c = CHR ''/'' then [] # split_slash cs
      else (case split_slash cs of
              [] \<Rightarrow> [[c]]
            | seg # segs \<Rightarrow> (c # seg) # segs))"

fun clean_elements :: "string list \<Rightarrow> string list \<Rightarrow> string list" where
  "clean_elements out [] = out"
| "clean_elements out (seg # segs) =
     (if seg = [] \<or> seg = ''.'' then clean_elements out segs
      else if seg = ''..'' then clean_elements (butlast out) segs
      else clean_elements (out @ [seg]) segs)"

fun join_slash :: "string list \<Rightarrow> string" where
  "join_slash [] = []"
| "join_slash [seg] = seg"
| "join_slash (seg # segs) = seg @ ''/'' @ join_slash segs"

definition path_Clean_rooted :: "string \<Rightarrow> string" where
  "path_Clean_rooted p = ''/'' @ join_slash (clean_elements [] (split_slash p))"

definition NewKey_String :: "string \<Rightarrow> string" where
  "NewKey_String s =
     (case s of
        [] \<Rightarrow> ''/''
      | c # cs \<Rightarrow> if c = CHR ''/'' then path_Clean_rooted s
                 else path_Clean_rooted (''/'' @ s))"

section \<open>The backing engine\<close>

text \<open>
  The connection pool and the relational engine behind it are outside the repository. The
  model is one table \<^verbatim>\<open>(key TEXT PRIMARY KEY, data BYTEA)\<close> named \<open>relation\<close>, whose rows
  are the map \<open>stored\<close>. The engine understands the statements of the adapter written
  against that table and rejects any other text. \<open>fault\<close> is a failure of the connection:
  when it is set every call fails with it. What the engine streams back for the text of a
  multi-row \<^verbatim>\<open>SELECT\<close> is left open as the function \<open>answer\<close>, since that text contains
  text of the caller. \<open>received\<close> logs the batches received, one entry per round trip.
\<close>

record rows =
  pending :: "col list list"
  rows_err :: "error option"
  closed :: bool

record pool =
  relation :: string
  stored :: "string \<rightharpoonup> bytes"
  fault :: "error option"
  answer :: "string \<Rightarrow> error + rows"
  received :: "queued list list"

definition pool_Exec :: "pool \<Rightarrow> string \<Rightarrow> arg list \<Rightarrow> error + pool" where
  "pool_Exec p s as =
     (case fault p of
        Some e \<Rightarrow> Inl e
      | None \<Rightarrow>
          if s = ''BEGIN'' \<or> s = ''COMMIT'' then Inr p
          else if s = ''INSERT INTO '' @ relation p
                    @ '' (key, data) VALUES ($1, $2) ON CONFLICT (key) DO UPDATE SET data = $2'' then
            (case as of
               [AText k, ABytea v] \<Rightarrow> Inr (p\<lparr>stored := (stored p)(k \<mapsto> v)\<rparr>)
             | _ \<Rightarrow> Inl (BackendError ''wrong parameters''))
          else if s = ''DELETE FROM '' @ relation p @ '' WHERE key = $1'' then
            (case as of
               [AText k] \<Rightarrow> Inr (p\<lparr>stored := (stored p)(k := None)\<rparr>)
             | _ \<Rightarrow> Inl (BackendError ''wrong parameters''))
          else Inl (BackendError ''statement not understood''))"

text \<open>
  \<^verbatim>\<open>QueryRow\<close> gives the single column of the first row, or \<open>ErrNoRows\<close> when the
  statement selects no row. The error is delivered by \<^verbatim>\<open>Scan\<close>, as in pgx.
\<close>

definition pool_QueryRow :: "pool \<Rightarrow> string \<Rightarrow> arg list \<Rightarrow> error + col" where
  "pool_QueryRow p s as =
     (case fault p of
        Some e \<Rightarrow> Inl e
      | None \<Rightarrow>
          (case as of
             [AText k] \<Rightarrow>
               if s = ''SELECT data FROM '' @ relation p @ '' WHERE key = $1'' then
                 (case stored p k of None \<Rightarrow> Inl ErrNoRows | Some v \<Rightarrow> Inr (CBytea v))
               else if s = ''SELECT octet_length(data) FROM '' @ relation p @ '' WHERE key = $1'' then
                 (case stored p k of None \<Rightarrow> Inl ErrNoRows | Some v \<Rightarrow> Inr (CInt (int (length v))))
               else if s = ''SELECT exists(SELECT 1 FROM '' @ relation p @ '' WHERE key = $1)'' then
                 Inr (CBool (stored p k \<noteq> None))
               else Inl (BackendError ''statement not understood'')
           | _ \<Rightarrow> Inl (BackendError ''wrong parameters'')))"

definition pool_Query :: "pool \<Rightarrow> string \<Rightarrow> error + rows" where
  "pool_Query p s = (case fault p of Some e \<Rightarrow> Inl e | None \<Rightarrow> answer p s)"

text \<open>\<^verbatim>\<open>row.Scan(&dst)\<close> into a destination of each Go type used by the adapter.\<close>

definition Scan_bytes :: "error + col \<Rightarrow> error + bytes" where
  "Scan_bytes r =
     (case r of Inl e \<Rightarrow> Inl e
      | Inr (CBytea v) \<Rightarrow> Inr v
      | Inr _ \<Rightarrow> Inl (BackendError ''cannot scan into []byte''))"


definition Scan_bool :: "error + col \<Rightarrow> error + bool" where
  "Scan_bool r =
     (case r of Inl e \<Rightarrow> Inl e
      | Inr (CBool b) \<Rightarrow> Inr b
      | Inr _ \<Rightarrow> Inl (BackendError ''cannot scan into bool''))"

section \<open>The datastore: single-key operations (datastore.go)\<close>

record datastore =
  table :: string
  pool :: pool

text \<open>
  Each operation returns what the Go function returns; an operation that changes the table
  also returns the datastore with the engine's new state. A nil error is \<open>None\<close>.
\<close>

definition Delete :: "datastore \<Rightarrow> key \<Rightarrow> error option \<times> datastore" where
  "Delete d key =
     (let sql = ''DELETE FROM '' @ table d @ '' WHERE key = $1'' in
      case pool_Exec (pool d) sql [AText key] of
        Inl err \<Rightarrow> (Some err, d)
      | Inr p \<Rightarrow> (None, d\<lparr>pool := p\<rparr>))"

definition Get :: "datastore \<Rightarrow> key \<Rightarrow> bytes \<times> error option" where
  "Get d key =
     (let sql = ''SELECT data FROM '' @ table d @ '' WHERE key = $1'';
          row = pool_QueryRow (pool d) sql [AText key]
      in case Scan_bytes row of
           Inl ErrNoRows \<Rightarrow> ([], Some ErrNotFound)
         | Inr out \<Rightarrow> (out, None)
         | Inl err \<Rightarrow> ([], Some err))"

definition Has :: "datastore \<Rightarrow> key \<Rightarrow> bool \<times> error option" where
  "Has d key =
     (let sql = ''SELECT exists(SELECT 1 FROM '' @ table d @ '' WHERE key = $1)'';
          row = pool_QueryRow (pool d) sql [AText key]
      in case Scan_bool row of
           Inl ErrNoRows \<Rightarrow> (False, Some ErrNotFound)
         | Inr exists \<Rightarrow> (exists, None)
         | Inl err \<Rightarrow> (False, Some err))"

definition Put :: "datastore \<Rightarrow> key \<Rightarrow> bytes \<Rightarrow> error option \<times> datastore" where
  "Put d key val =
     (let sql = ''INSERT INTO '' @ table d
                  @ '' (key, data) VALUES ($1, $2) ON CONFLICT (key) DO UPDATE SET data = $2'' in
      case pool_Exec (pool d) sql [AText key, ABytea val] of
        Inl err \<Rightarrow> (Some err, d)
      | Inr p \<Rightarrow> (None, d\<lparr>pool := p\<rparr>))"

definition Sync :: "datastore \<Rightarrow> key \<Rightarrow> error option" where
  "Sync d key = None"


section \<open>Batches (batching.go)\<close>

text \<open>
  \<^verbatim>\<open>pgx.Batch\<close> is the list of queued statements; \<^verbatim>\<open>Queue\<close> appends one and
  \<^verbatim>\<open>Len\<close> is the length of the list.
\<close>

definition Queue :: "queued list \<Rightarrow> string \<Rightarrow> arg list \<Rightarrow> queued list" where
  "Queue items query as = items @ [\<lparr>sql = query, arguments = as\<rparr>]"

record batch =
  ds :: datastore
  batch :: "queued list"

definition Batch :: "datastore \<Rightarrow> batch \<times> error option" where
  "Batch d = (\<lparr>ds = d, batch = []\<rparr>, None)"

definition batch_Put :: "batch \<Rightarrow> key \<Rightarrow> bytes \<Rightarrow> error option \<times> batch" where
  "batch_Put b key val =
     (let q1 = Queue (batch b) ''BEGIN'' [];
          sql = ''INSERT INTO '' @ table (ds b)
                  @ '' (key, data) VALUES ($1, $2) ON CONFLICT (key) DO UPDATE SET data = $2'';
          q2 = Queue q1 sql [AText key, ABytea val];
          q3 = Queue q2 ''COMMIT'' []
      in (None, b\<lparr>batch := q3\<rparr>))"

definition batch_Delete :: "batch \<Rightarrow> key \<Rightarrow> error option \<times> batch" where
  "batch_Delete b key =
     (let q1 = Queue (batch b) ''BEGIN'' [];
          q2 = Queue q1 (''DELETE FROM '' @ table (ds b) @ '' WHERE key = $1'') [AText key];
          q3 = Queue q2 ''COMMIT'' []
      in (None, b\<lparr>batch := q3\<rparr>))"

text \<open>
  \<^verbatim>\<open>SendBatch\<close> hands all the statements to the engine at once. The engine runs them in
  order up to the first one that fails; that statement and every later one report the
  failure, and the rows go back to what the last \<^verbatim>\<open>COMMIT\<close> of the batch left (to the
  state before the batch when there was none). \<^verbatim>\<open>pgx.BatchResults\<close> holds one
  outcome per statement, hands them out one per \<^verbatim>\<open>Exec\<close> call, and is released by
  \<^verbatim>\<open>Close\<close>.
\<close>

fun run_batch :: "pool \<Rightarrow> pool \<Rightarrow> queued list \<Rightarrow> error option list \<times> pool" where
  "run_batch saved p [] = ([], p)"
| "run_batch saved p (i # is) =
     (case pool_Exec p (sql i) (arguments i) of
        Inl e \<Rightarrow> (map (\<lambda>_. Some e) (i # is), saved)
      | Inr p' \<Rightarrow>
          (case run_batch (if sql i = ''COMMIT'' then p' else saved) p' is of
             (rs, p'') \<Rightarrow> (None # rs, p'')))"

record batch_results =
  outcomes :: "error option list"
  position :: nat
  released :: bool

definition pool_SendBatch :: "pool \<Rightarrow> queued list \<Rightarrow> batch_results \<times> pool" where
  "pool_SendBatch p items =
     (case run_batch p p items of
        (outs, p') \<Rightarrow>
          (\<lparr>outcomes = outs, position = 0, released = False\<rparr>,
           p'\<lparr>received := received p @ [items]\<rparr>))"

definition BatchResults_Exec :: "batch_results \<Rightarrow> error option \<times> batch_results" where
  "BatchResults_Exec res =
     (if released res then (Some (BackendError ''batch already closed''), res)
      else if position res < length (outcomes res) then
        (outcomes res ! position res, res\<lparr>position := Suc (position res)\<rparr>)
      else (Some (BackendError ''no result''), res))"

definition BatchResults_Close :: "batch_results \<Rightarrow> batch_results" where
  "BatchResults_Close res = res\<lparr>released := True\<rparr>"

text \<open>
  The loop of \<^verbatim>\<open>Commit\<close>: \<open>i\<close> counts up to \<open>n = b.batch.Len()\<close>, and the first error
  leaves the loop. \<open>batch_Commit\<close> returns the error, the batch results as the deferred
  \<^verbatim>\<open>Close\<close> leaves them, and the batch with the engine's new state.
\<close>

function Commit_loop :: "nat \<Rightarrow> nat \<Rightarrow> batch_results \<Rightarrow> error option \<times> batch_results" where
  "Commit_loop i n res =
     (if i < n then
        (case BatchResults_Exec res of
           (Some err, res') \<Rightarrow> (Some err, res')
         | (None, res') \<Rightarrow> Commit_loop (Suc i) n res')
      else (None, res))"
  by pat_completeness auto
termination
  by (relation "measure (\<lambda>(i, n, res). n - i)") auto

declare Commit_loop.simps [simp del]

definition batch_Commit :: "batch \<Rightarrow> error option \<times> batch_results \<times> batch" where
  "batch_Commit b =
     (case pool_SendBatch (pool (ds b)) (batch b) of
        (res, p) \<Rightarrow>
          (case Commit_loop 0 (length (batch b)) res of
             (err, res') \<Rightarrow>
               (err, BatchResults_Close res', b\<lparr>ds := (ds b)\<lparr>pool := p\<rparr>\<rparr>)))"

subsection \<open>The earlier batch (src/unnamed/part_000)\<close>

text \<open>
  The earlier version of the file queues the data statement alone, without
  \<^verbatim>\<open>BEGIN\<close> and \<^verbatim>\<open>COMMIT\<close>; its \<^verbatim>\<open>CommitContext\<close> has the body of \<^verbatim>\<open>Commit\<close> above.
\<close>

definition batch_Put_p0 :: "batch \<Rightarrow> key \<Rightarrow> bytes \<Rightarrow> error option \<times> batch" where
  "batch_Put_p0 b key val =
     (let sql = ''INSERT INTO '' @ table (ds b)
                  @ '' (key, data) VALUES ($1, $2) ON CONFLICT (key) DO UPDATE SET data = $2''
      in (None, b\<lparr>batch := Queue (batch b) sql [AText key, ABytea val]\<rparr>))"

definition batch_Delete_p0 :: "batch \<Rightarrow> key \<Rightarrow> error option \<times> batch" where
  "batch_Delete_p0 b key =
     (None, b\<lparr>batch := Queue (batch b) (''DELETE FROM '' @ table (ds b) @ '' WHERE key = $1'')
                          [AText key]\<rparr>)"

definition batch_CommitContext :: "batch \<Rightarrow> error option \<times> batch_results \<times> batch" where
  "batch_CommitContext b =
     (case pool_SendBatch (pool (ds b)) (batch b) of
        (res, p) \<Rightarrow>
          (case Commit_loop 0 (length (batch b)) res of
             (err, res') \<Rightarrow>
               (err, BatchResults_Close res', b\<lparr>ds := (ds b)\<lparr>pool := p\<rparr>\<rparr>)))"

definition batch_Commit_p0 :: "batch \<Rightarrow> error option \<times> batch_results \<times> batch" where
  "batch_Commit_p0 b = batch_CommitContext b"

text \<open>
  A sequence of calls on a batch, for statements about everything a caller queued: the
  calls are applied in order and the errors they returned are collected.
\<close>

datatype batch_op = OpPut key bytes | OpDelete key

fun queue_op :: "batch \<Rightarrow> batch_op \<Rightarrow> error option \<times> batch" where
  "queue_op b (OpPut k v) = batch_Put b k v"
| "queue_op b (OpDelete k) = batch_Delete b k"

fun queue_ops :: "batch \<Rightarrow> batch_op list \<Rightarrow> error option list \<times> batch" where
  "queue_ops b [] = ([], b)"
| "queue_ops b (x # xs) =
     (case queue_op b x of
        (e, b') \<Rightarrow> (case queue_ops b' xs of (es, b'') \<Rightarrow> (e # es, b'')))"

section \<open>Queries (datastore.go, Query)\<close>

text \<open>
  \<^verbatim>\<open>dsq.Entry\<close>, \<^verbatim>\<open>dsq.Result\<close> and \<^verbatim>\<open>dsq.Query\<close>, with the fields the adapter reads or
  writes. A filter is its method \<^verbatim>\<open>Filter(e Entry) bool\<close>, an order its method
  \<^verbatim>\<open>Compare(a, b Entry) int\<close>.
\<close>

record entry =
  Key :: string
  Value :: bytes
  Size :: int

record result =
  Entry :: entry
  Error :: "error option"

type_synonym dsq_filter = "entry \<Rightarrow> bool"

type_synonym dsq_order = "entry \<Rightarrow> entry \<Rightarrow> int"

record query =
  Prefix :: string
  Filters :: "dsq_filter list"
  Orders :: "dsq_order list"
  Limit :: int
  Offset :: int
  KeysOnly :: bool
  ReturnsSizes :: bool

subsection \<open>The SQL text\<close>

text \<open>\<^verbatim>\<open>%d\<close> of \<^verbatim>\<open>fmt.Sprintf\<close>: the decimal digits, with a minus sign below zero.\<close>

fun digits :: "nat \<Rightarrow> string" where
  "digits n =
     (if n < 10 then [''0123456789'' ! n]
      else digits (n div 10) @ [''0123456789'' ! (n mod 10)])"

declare digits.simps [simp del]

definition fmt_d :: "int \<Rightarrow> string" where
  "fmt_d i = (if i < 0 then CHR ''-'' # digits (nat (- i)) else digits (nat i))"

text \<open>
  The text is built by appending; the three definitions are the three blocks of the
  function, each giving what its block contributes. The single quote is \<open>CHR 0x27\<close>.
\<close>

definition Query_select :: "datastore \<Rightarrow> query \<Rightarrow> string" where
  "Query_select d q =
     (if KeysOnly q \<and> ReturnsSizes q then ''SELECT key, octet_length(data) FROM '' @ table d
      else if KeysOnly q then ''SELECT key FROM '' @ table d
      else ''SELECT key, data FROM '' @ table d)"

definition Query_where :: "query \<Rightarrow> string" where
  "Query_where q =
     (if Prefix q \<noteq> [] then
        (let prefix = NewKey_String (Prefix q) in
         if prefix \<noteq> ''/'' then
           '' WHERE key LIKE '' @ [CHR 0x27] @ (prefix @ ''/'') @ ''%'' @ [CHR 0x27] @ '' ORDER BY key''
         else [])
      else [])"

definition Query_paging :: "query \<Rightarrow> string" where
  "Query_paging q =
     (if length (Filters q) = 0 \<and> length (Orders q) = 0 then
        (if Limit q \<noteq> 0 then '' LIMIT '' @ fmt_d (Limit q) else [])
        @ (if Offset q \<noteq> 0 then '' OFFSET '' @ fmt_d (Offset q) else [])
      else [])"

definition Query_sql :: "datastore \<Rightarrow> query \<Rightarrow> string" where
  "Query_sql d q = Query_select d q @ Query_where q @ Query_paging q"

text \<open>
  The statement handed to \<^verbatim>\<open>d.pool.Query(ctx, sql)\<close>: the text, and no bound parameter.
\<close>

definition Query_statement :: "datastore \<Rightarrow> query \<Rightarrow> queued" where
  "Query_statement d q = \<lparr>sql = Query_sql d q, arguments = []\<rparr>"

subsection \<open>The iterator over the row cursor\<close>

text \<open>
  \<^verbatim>\<open>rows.Next()\<close> moves to the next row and closes the cursor when there is none;
  \<^verbatim>\<open>rows.Scan\<close> fails unless the row has exactly the columns asked for.
\<close>

definition rows_Next :: "rows \<Rightarrow> col list option \<times> rows" where
  "rows_Next rs =
     (case pending rs of
        [] \<Rightarrow> (None, rs\<lparr>closed := True\<rparr>)
      | r # rest \<Rightarrow> (Some r, rs\<lparr>pending := rest\<rparr>))"

definition rows_Close :: "rows \<Rightarrow> rows" where
  "rows_Close rs = rs\<lparr>pending := [], closed := True\<rparr>"

definition Scan_key_size :: "col list \<Rightarrow> error + string \<times> int" where
  "Scan_key_size r =
     (case r of
        [CText k, CInt n] \<Rightarrow> Inr (k, n)
      | _ \<Rightarrow> Inl (BackendError ''cannot scan (key, size)''))"

definition Scan_key :: "col list \<Rightarrow> error + string" where
  "Scan_key r =
     (case r of
        [CText k] \<Rightarrow> Inr k
      | _ \<Rightarrow> Inl (BackendError ''cannot scan (key)''))"

definition Scan_key_data :: "col list \<Rightarrow> error + string \<times> bytes" where
  "Scan_key_data r =
     (case r of
        [CText k, CBytea v] \<Rightarrow> Inr (k, v)
      | _ \<Rightarrow> Inl (BackendError ''cannot scan (key, data)''))"

text \<open>The zero value of \<^verbatim>\<open>dsq.Entry\<close>, and a result that carries only an error.\<close>

definition zero_entry :: entry where
  "zero_entry = \<lparr>Key = [], Value = [], Size = 0\<rparr>"

definition error_result :: "error \<Rightarrow> result" where
  "error_result err = \<lparr>Entry = zero_entry, Error = Some err\<rparr>"

text \<open>The closure \<^verbatim>\<open>Next\<close> of the iterator; the cursor it captured is passed and returned.\<close>

definition Next :: "query \<Rightarrow> rows \<Rightarrow> (result \<times> bool) \<times> rows" where
  "Next q rs =
     (case rows_Next rs of
        (None, rs') \<Rightarrow>
          (case rows_err rs' of
             Some e \<Rightarrow> ((error_result e, False), rs')
           | None \<Rightarrow> ((\<lparr>Entry = zero_entry, Error = None\<rparr>, False), rs'))
      | (Some r, rs') \<Rightarrow>
          if KeysOnly q \<and> ReturnsSizes q then
            (case Scan_key_size r of
               Inl err \<Rightarrow> ((error_result err, False), rs')
             | Inr (key, size') \<Rightarrow>
                 ((\<lparr>Entry = \<lparr>Key = key, Value = [], Size = size'\<rparr>, Error = None\<rparr>, True), rs'))
          else if KeysOnly q then
            (case Scan_key r of
               Inl err \<Rightarrow> ((error_result err, False), rs')
             | Inr key \<Rightarrow>
                 ((\<lparr>Entry = \<lparr>Key = key, Value = [], Size = 0\<rparr>, Error = None\<rparr>, True), rs'))
          else
            (case Scan_key_data r of
               Inl err \<Rightarrow> ((error_result err, False), rs')
             | Inr (key, data) \<Rightarrow>
                 (let entry = \<lparr>Key = key, Value = data, Size = 0\<rparr>;
                      entry' = (if ReturnsSizes q then entry\<lparr>Size := int (length data)\<rparr>
                                else entry)
                  in ((\<lparr>Entry = entry', Error = None\<rparr>, True), rs'))))"

definition Close :: "rows \<Rightarrow> error option \<times> rows" where
  "Close rs = (None, rows_Close rs)"

subsection \<open>Result sequences and the naive stages\<close>

text \<open>
  \<^verbatim>\<open>dsq.Results\<close> and the functions that build one belong to the go-datastore library. A
  value of \<open>results\<close> records the calls that built a sequence, innermost first, so that
  what \<^verbatim>\<open>Query\<close> composes can be read off; \<open>Rest\<close> below gives the entries the
  sequence delivers.
\<close>

datatype results =
    ResultsFromIterator query rows
  | NaiveFilter results dsq_filter
  | NaiveOrder results "dsq_order list"
  | NaiveOffset results int
  | NaiveLimit results int

text \<open>
  A sequence built from an iterator calls \<^verbatim>\<open>Next\<close> until it returns false, and delivers the
  results that came with true.
\<close>

function pull_all :: "query \<Rightarrow> rows \<Rightarrow> entry list" where
  "pull_all q rs =
     (case Next q rs of
        ((res, ok), rs') \<Rightarrow> if ok then Entry res # pull_all q rs' else [])"
  by pat_completeness auto
termination
  by (relation "measure (\<lambda>(q, rs). length (pending rs))")
     (auto simp: Next_def rows_Next_def Let_def
           split: list.splits option.splits if_splits sum.splits prod.splits)

declare pull_all.simps [simp del]

text \<open>
  \<^verbatim>\<open>dsq.Less\<close>: the first comparator that answers -1 or 1 decides, and the keys decide when
  none does. \<^verbatim>\<open>NaiveOrder\<close> returns its argument when it is given no comparator and sorts
  the collected entries by \<open>Less\<close> otherwise; the sort is modelled by insertion.
  \<^verbatim>\<open>NaiveOffset\<close> skips, \<^verbatim>\<open>NaiveLimit\<close> counts its limit down to zero, which a limit
  that is not positive never reaches.
\<close>

fun Less :: "dsq_order list \<Rightarrow> entry \<Rightarrow> entry \<Rightarrow> bool" where
  "Less [] a b = (Key a < Key b)"
| "Less (cmp # orders) a b =
     (if cmp a b = 0 then Less orders a b
      else if cmp a b = - 1 then True
      else if cmp a b = 1 then False
      else Less orders a b)"

fun insert_by :: "(entry \<Rightarrow> entry \<Rightarrow> bool) \<Rightarrow> entry \<Rightarrow> entry list \<Rightarrow> entry list" where
  "insert_by lt x [] = [x]"
| "insert_by lt x (y # ys) = (if lt x y then x # y # ys else y # insert_by lt x ys)"

definition sort_by :: "(entry \<Rightarrow> entry \<Rightarrow> bool) \<Rightarrow> entry list \<Rightarrow> entry list" where
  "sort_by lt es = foldr (insert_by lt) es []"

fun Rest :: "results \<Rightarrow> entry list" where
  "Rest (ResultsFromIterator q rs) = pull_all q rs"
| "Rest (NaiveFilter res f) = filter f (Rest res)"
| "Rest (NaiveOrder res orders) =
     (case orders of [] \<Rightarrow> Rest res | _ # _ \<Rightarrow> sort_by (Less orders) (Rest res))"
| "Rest (NaiveOffset res n) = drop (nat n) (Rest res)"
| "Rest (NaiveLimit res n) = (if n \<le> 0 then Rest res else take (nat n) (Rest res))"

text \<open>The stages of a sequence, innermost first.\<close>

datatype stage = FilterStage | OrderStage | OffsetStage | LimitStage

fun stages :: "results \<Rightarrow> stage list" where
  "stages (ResultsFromIterator q rs) = []"
| "stages (NaiveFilter res f) = stages res @ [FilterStage]"
| "stages (NaiveOrder res orders) = stages res @ [OrderStage]"
| "stages (NaiveOffset res n) = stages res @ [OffsetStage]"
| "stages (NaiveLimit res n) = stages res @ [LimitStage]"

subsection \<open>Query\<close>

text \<open>
  The second half of \<^verbatim>\<open>Query\<close>, from the iterator to the returned sequence, and the whole
  function: an error of the engine is returned, otherwise the sequence over its cursor.
\<close>

definition Query_results :: "query \<Rightarrow> rows \<Rightarrow> results" where
  "Query_results q rs =
     (let res0 = ResultsFromIterator q rs;
          res1 = foldl NaiveFilter res0 (Filters q);
          res2 = NaiveOrder res1 (Orders q)
      in if length (Filters q) > 0 \<or> length (Orders q) > 0 then
           (let res3 = (if Offset q \<noteq> 0 then NaiveOffset res2 (Offset q) else res2)
            in if Limit q \<noteq> 0 then NaiveLimit res3 (Limit q) else res3)
         else res2)"

definition Query :: "datastore \<Rightarrow> query \<Rightarrow> error + results" where
  "Query d q =
     (case pool_Query (pool d) (sql (Query_statement d q)) of
        Inl err \<Rightarrow> Inl err
      | Inr rs \<Rightarrow> Inr (Query_results q rs))"

subsection \<open>The engine's LIKE operator\<close>

text \<open>
  The pattern language of \<^verbatim>\<open>LIKE\<close>: \<open>%\<close> stands for any run of characters, \<open>_\<close> for any
  one character, and a backslash (\<open>CHR 0x5C\<close>) makes the next character literal.
\<close>

fun like_match :: "string \<Rightarrow> string \<Rightarrow> bool" where
  "like_match [] s = (s = [])"
| "like_match (p # ps) s =
     (if p = CHR ''%'' then
        like_match ps s \<or> (case s of [] \<Rightarrow> False | c # cs \<Rightarrow> like_match (p # ps) cs)
      else if p = CHR ''_'' then
        (case s of [] \<Rightarrow> False | c # cs \<Rightarrow> like_match ps cs)
      else if p = CHR 0x5C then
        (case ps of
           [] \<Rightarrow> False
         | e # ps' \<Rightarrow> (case s of [] \<Rightarrow> False | c # cs \<Rightarrow> c = e \<and> like_match ps' cs))
      else (case s of [] \<Rightarrow> False | c # cs \<Rightarrow> c = p \<and> like_match ps cs))"

text \<open>
  What one call contributes to the queue of batching.go, and what it does to the rows once
  its transaction commits; both are used to state what a committed batch amounts to.
\<close>

fun op_statements :: "string \<Rightarrow> batch_op \<Rightarrow> queued list" where
  "op_statements t (OpPut k v) =
     [\<lparr>sql = ''BEGIN'', arguments = []\<rparr>,
      \<lparr>sql = ''INSERT INTO '' @ t
               @ '' (key, data) VALUES ($1, $2) ON CONFLICT (key) DO UPDATE SET data = $2'',
       arguments = [AText k, ABytea v]\<rparr>,
      \<lparr>sql = ''COMMIT'', arguments = []\<rparr>]"
| "op_statements t (OpDelete k) =
     [\<lparr>sql = ''BEGIN'', arguments = []\<rparr>,
      \<lparr>sql = ''DELETE FROM '' @ t @ '' WHERE key = $1'', arguments = [AText k]\<rparr>,
      \<lparr>sql = ''COMMIT'', arguments = []\<rparr>]"

fun op_effect :: "(string \<rightharpoonup> bytes) \<Rightarrow> batch_op \<Rightarrow> (string \<rightharpoonup> bytes)" where
  "op_effect m (OpPut k v) = m(k \<mapsto> v)"
| "op_effect m (OpDelete k) = m(k := None)"

section \<open>Example values\<close>

text \<open>
  A store over the table \<open>blocks\<close> holding one row, used to run the operations on concrete
  inputs.
\<close>

definition demo_pool :: pool where
  "demo_pool = \<lparr>relation = ''blocks'', stored = [''/a'' \<mapsto> [1, 2, 3]], fault = None,
                 answer = (\<lambda>s. Inl (BackendError ''not answered'')), received = []\<rparr>"

definition demo_ds :: datastore where
  "demo_ds = \<lparr>table = ''blocks'', pool = demo_pool\<rparr>"

text \<open>The same engine behind a datastore configured for a table the engine does not hold.\<close>

definition demo_other_ds :: datastore where
  "demo_other_ds = \<lparr>table = ''other'', pool = demo_pool\<rparr>"

text \<open>
  The zero value of the query descriptor, a cursor with the two rows of a full projection,
  and a descriptor whose prefix contains single quotes.
\<close>

definition demo_query :: query where
  "demo_query = \<lparr>Prefix = [], Filters = [], Orders = [], Limit = 0, Offset = 0,
                  KeysOnly = False, ReturnsSizes = False\<rparr>"

definition demo_rows :: rows where
  "demo_rows = \<lparr>pending = [[CText ''/a/1'', CBytea [1, 2]], [CText ''/a/2'', CBytea [3]]],
                 rows_err = None, closed = False\<rparr>"

definition quoted_prefix_query :: query where
  "quoted_prefix_query =
     demo_query\<lparr>Prefix := ''/a'' @ [CHR 0x27] @ '' OR key LIKE '' @ [CHR 0x27]\<rparr>"

text \<open>A descriptor with one filter and a limit, and one with a limit and an offset only.\<close>

definition filtered_query :: query where
  "filtered_query = demo_query\<lparr>Filters := [\<lambda>e. Key e \<noteq> ''/a/1''], Limit := 2\<rparr>"

definition paged_query :: query where
  "paged_query = demo_query\<lparr>Limit := 10, Offset := 3\<rparr>"

text \<open>
  Descriptors with the prefix \<open>/a\<close> and with the root as prefix, a keys-only descriptor
  that asks for sizes, and a cursor with the two rows of its projection.
\<close>

definition prefix_a_query :: query where
  "prefix_a_query = demo_query\<lparr>Prefix := ''/a''\<rparr>"

definition root_prefix_query :: query where
  "root_prefix_query = demo_query\<lparr>Prefix := ''/''\<rparr>"

definition sizes_query :: query where
  "sizes_query = demo_query\<lparr>KeysOnly := True, ReturnsSizes := True\<rparr>"

definition demo_size_rows :: rows where
  "demo_size_rows = \<lparr>pending = [[CText ''/a/1'', CInt 2], [CText ''/a/2'', CInt 1]],
                      rows_err = None, closed = False\<rparr>"

section \<open>Single-key operations against a healthy engine\<close>

text \<open>
  The statements of the adapter, written against the table the engine holds, are the ones
  the engine understands.
\<close>

lemma QueryRow_data:
  "fault p = None \<Longrightarrow>
   pool_QueryRow p (''SELECT data FROM '' @ relation p @ '' WHERE key = $1'') [AText k] =
     (case stored p k of None \<Rightarrow> Inl ErrNoRows | Some v \<Rightarrow> Inr (CBytea v))"
  by (simp add: pool_QueryRow_def)


lemma Exec_upsert:
  "fault p = None \<Longrightarrow>
   pool_Exec p (''INSERT INTO '' @ relation p
        @ '' (key, data) VALUES ($1, $2) ON CONFLICT (key) DO UPDATE SET data = $2'')
      [AText k, ABytea v] = Inr (p\<lparr>stored := (stored p)(k \<mapsto> v)\<rparr>)"
  by (simp add: pool_Exec_def)

lemma Get_healthy:
  "fault (pool d) = None \<Longrightarrow> relation (pool d) = table d \<Longrightarrow>
   Get d k = (case stored (pool d) k of None \<Rightarrow> ([], Some ErrNotFound) | Some v \<Rightarrow> (v, None))"
  using QueryRow_data [of "pool d" k]
  by (simp add: Get_def Scan_bytes_def split: option.splits)


lemma Put_healthy:
  "fault (pool d) = None \<Longrightarrow> relation (pool d) = table d \<Longrightarrow>
   Put d k v = (None, d\<lparr>pool := (pool d)\<lparr>stored := (stored (pool d))(k \<mapsto> v)\<rparr>\<rparr>)"
  using Exec_upsert [of "pool d" k v]
  by (simp add: Put_def)



text \<open>
  C9. When the engine is reachable and holds the adapter's table: \<open>Put d k v\<close> succeeds and
  a following \<open>Get\<close> of \<open>k\<close> returns \<open>v\<close>; a second \<open>Put\<close> of the same key and value
  succeeds and leaves the store, and so the result of \<open>Get\<close>, as it was; a \<open>Put\<close> of another
  value \<open>w\<close> under the same key overwrites, so that \<open>Get\<close> returns \<open>w\<close>.
\<close>

theorem Put_then_Get:
  assumes "fault (pool d) = None" and "relation (pool d) = table d"
  shows "fst (Put d k v) = None
       \<and> Get (snd (Put d k v)) k = (v, None)
       \<and> Put (snd (Put d k v)) k v = (None, snd (Put d k v))
       \<and> Get (snd (Put (snd (Put d k v)) k v)) k = (v, None)
       \<and> Get (snd (Put (snd (Put d k v)) k w)) k = (w, None)"
  using assms by (simp add: Put_healthy Get_healthy)

theorem Put_then_Get_witness:
  "fst (Put demo_ds ''/b'' [7]) = None
   \<and> Get (snd (Put demo_ds ''/b'' [7])) ''/b'' = ([7], None)
   \<and> Get (snd (Put (snd (Put demo_ds ''/a'' [7])) ''/a'' [7])) ''/a'' = ([7], None)"
  using Put_then_Get [of demo_ds "''/b''" "[7]" "[]"] Put_then_Get [of demo_ds "''/a''" "[7]" "[]"]
  by (simp add: demo_ds_def demo_pool_def)

section \<open>Committing a batch\<close>

lemma Exec_step:
  "BatchResults_Exec res = (e, res') \<Longrightarrow> \<not> released res \<Longrightarrow> position res < length (outcomes res) \<Longrightarrow>
   e = outcomes res ! position res \<and> res' = res\<lparr>position := Suc (position res)\<rparr>"
  by (auto simp: BatchResults_Exec_def)

lemma Commit_loop_char:
  "\<not> released res \<Longrightarrow> position res = i \<Longrightarrow> i \<le> n \<Longrightarrow> n \<le> length (outcomes res) \<Longrightarrow>
   Commit_loop i n res = (err, res') \<Longrightarrow>
     outcomes res' = outcomes res \<and> \<not> released res' \<and> i \<le> position res' \<and> position res' \<le> n
     \<and> (\<forall>j. i \<le> j \<and> Suc j < position res' \<longrightarrow> outcomes res ! j = None)
     \<and> (err = None \<longrightarrow> position res' = n
           \<and> (\<forall>j. i \<le> j \<and> j < n \<longrightarrow> outcomes res ! j = None))
     \<and> (\<forall>e. err = Some e \<longrightarrow> i < position res'
           \<and> outcomes res ! (position res' - 1) = Some e)"
proof (induction i n res arbitrary: err res' rule: Commit_loop.induct)
  case (1 i n res)
  show ?case
  proof (cases "i < n")
    case False
    with "1.prems" show ?thesis by (auto simp: Commit_loop.simps)
  next
    case True
    obtain e r where ex: "BatchResults_Exec res = (e, r)" by (cases "BatchResults_Exec res")
    with "1.prems" True have e: "e = outcomes res ! i" and r: "r = res\<lparr>position := Suc i\<rparr>"
      using Exec_step [of res e r] by auto
    show ?thesis
    proof (cases e)
      case (Some x)
      with True ex have "Commit_loop i n res = (Some x, r)"
        by (simp add: Commit_loop.simps [of i n res])
      with "1.prems" have "err = Some x" and "res' = r" by simp_all
      with "1.prems" True e r Some show ?thesis by auto
    next
      case None
      with True ex have "Commit_loop i n res = Commit_loop (Suc i) n r"
        by (simp add: Commit_loop.simps [of i n res])
      with "1.prems" have loop: "Commit_loop (Suc i) n r = (err, res')" by simp
      have "outcomes res' = outcomes r \<and> \<not> released res' \<and> Suc i \<le> position res' \<and> position res' \<le> n
     \<and> (\<forall>j. Suc i \<le> j \<and> Suc j < position res' \<longrightarrow> outcomes r ! j = None)
     \<and> (err = None \<longrightarrow> position res' = n
           \<and> (\<forall>j. Suc i \<le> j \<and> j < n \<longrightarrow> outcomes r ! j = None))
     \<and> (\<forall>e. err = Some e \<longrightarrow> Suc i < position res'
           \<and> outcomes r ! (position res' - 1) = Some e)"
        using "1.IH" [OF True ex [symmetric] None _ _ _ _ loop] "1.prems" True r by simp
      moreover have "\<And>j. i \<le> j \<Longrightarrow> j = i \<or> Suc i \<le> j" by arith
      ultimately show ?thesis using None e r
        by (auto dest!: \<open>\<And>j. i \<le> j \<Longrightarrow> j = i \<or> Suc i \<le> j\<close>)
    qed
  qed
qed


lemma run_batch_length:
  "run_batch saved p items = (outs, p') \<Longrightarrow> length outs = length items"
proof (induction items arbitrary: saved p outs p')
  case Nil
  then show ?case by simp
next
  case (Cons i items)
  show ?case
  proof (cases "pool_Exec p (sql i) (arguments i)")
    case (Inl e)
    with Cons.prems show ?thesis by auto
  next
    case (Inr q)
    obtain rs q' where rb: "run_batch (if sql i = ''COMMIT'' then q else saved) q items = (rs, q')"
      by (cases "run_batch (if sql i = ''COMMIT'' then q else saved) q items")
    from Cons.IH [OF rb] have "length rs = length items" .
    with Cons.prems Inr rb show ?thesis by auto
  qed
qed

lemma SendBatch_results:
  "length (outcomes (fst (pool_SendBatch p items))) = length items
   \<and> position (fst (pool_SendBatch p items)) = 0
   \<and> \<not> released (fst (pool_SendBatch p items))
   \<and> received (snd (pool_SendBatch p items)) = received p @ [items]"
proof -
  obtain outs p' where rb: "run_batch p p items = (outs, p')"
    by (cases "run_batch p p items")
  with run_batch_length [OF rb] show ?thesis
    by (simp add: pool_SendBatch_def)
qed

lemma Commit_unfold:
  "batch_Commit b =
     (fst (Commit_loop 0 (length (batch b)) (fst (pool_SendBatch (pool (ds b)) (batch b)))),
      BatchResults_Close
        (snd (Commit_loop 0 (length (batch b)) (fst (pool_SendBatch (pool (ds b)) (batch b))))),
      b\<lparr>ds := (ds b)\<lparr>pool := snd (pool_SendBatch (pool (ds b)) (batch b))\<rparr>\<rparr>)"
  by (simp add: batch_Commit_def split: prod.splits)

lemma Commit_loop_sent:
  assumes "Commit_loop 0 (length items) (fst (pool_SendBatch p items)) = (err, res')"
  shows "outcomes res' = outcomes (fst (pool_SendBatch p items)) \<and> \<not> released res'
     \<and> position res' \<le> length items
     \<and> (\<forall>j. Suc j < position res' \<longrightarrow> outcomes (fst (pool_SendBatch p items)) ! j = None)
     \<and> (err = None \<longrightarrow> position res' = length items
           \<and> (\<forall>j < length items. outcomes (fst (pool_SendBatch p items)) ! j = None))
     \<and> (\<forall>e. err = Some e \<longrightarrow> 0 < position res'
           \<and> outcomes (fst (pool_SendBatch p items)) ! (position res' - 1) = Some e)"
  using Commit_loop_char [of "fst (pool_SendBatch p items)" 0 "length items" err res']
        SendBatch_results [of p items] assms
  by simp

text \<open>
  C6. \<open>Commit\<close> hands the whole queue to the engine in one round trip and gets one outcome
  per statement. The outcomes it consumes are the first \<open>position\<close> ones, in the order of
  submission: all of them but the last are successes; when \<open>Commit\<close> returns nil it has
  consumed every outcome and all are successes; when it returns an error, that error is
  the last outcome consumed, so the first failure, and the outcomes after it are left.
  The batch results are released in both cases. \<open>CommitContext\<close> of the earlier version
  does the same.
\<close>

theorem Commit_drains_until_first_error:
  "(let sent = fst (pool_SendBatch (pool (ds b)) (batch b));
        err = fst (batch_Commit b);
        res' = fst (snd (batch_Commit b));
        b' = snd (snd (batch_Commit b))
    in received (pool (ds b')) = received (pool (ds b)) @ [batch b]
     \<and> length (outcomes sent) = length (batch b) \<and> position sent = 0
     \<and> outcomes res' = outcomes sent
     \<and> released res'
     \<and> position res' \<le> length (batch b)
     \<and> (\<forall>j. Suc j < position res' \<longrightarrow> outcomes sent ! j = None)
     \<and> (err = None \<longrightarrow> position res' = length (batch b)
           \<and> (\<forall>j < length (batch b). outcomes sent ! j = None))
     \<and> (\<forall>e. err = Some e \<longrightarrow> 0 < position res' \<and> outcomes sent ! (position res' - 1) = Some e)
     \<and> batch_CommitContext b = batch_Commit b)"
proof -
  obtain err res' where loop:
    "Commit_loop 0 (length (batch b)) (fst (pool_SendBatch (pool (ds b)) (batch b))) = (err, res')"
    by (cases "Commit_loop 0 (length (batch b)) (fst (pool_SendBatch (pool (ds b)) (batch b)))")
  have same: "batch_CommitContext b = batch_Commit b"
    by (simp add: batch_CommitContext_def batch_Commit_def)
  show ?thesis
    using Commit_loop_sent [OF loop] SendBatch_results [of "pool (ds b)" "batch b"] loop same
    by (simp add: Let_def Commit_unfold BatchResults_Close_def)
qed

theorem Commit_drains_until_first_error_witness:
  "fst (batch_Commit (snd (batch_Put (fst (Batch demo_ds)) ''/k'' [9]))) = None
   \<and> position (fst (snd (batch_Commit (snd (batch_Put (fst (Batch demo_ds)) ''/k'' [9]))))) = 3
   \<and> fst (batch_Commit (snd (batch_Put (fst (Batch demo_other_ds)) ''/k'' [9])))
       = Some (BackendError ''statement not understood'')
   \<and> position (fst (snd (batch_Commit (snd (batch_Put (fst (Batch demo_other_ds)) ''/k'' [9]))))) = 2
   \<and> released (fst (snd (batch_Commit (snd (batch_Put (fst (Batch demo_other_ds)) ''/k'' [9])))))"
  using Commit_drains_until_first_error [of "snd (batch_Put (fst (Batch demo_ds)) ''/k'' [9])"]
        Commit_drains_until_first_error [of "snd (batch_Put (fst (Batch demo_other_ds)) ''/k'' [9])"]
  by (simp add: Let_def batch_Commit_def batch_Put_def Batch_def Queue_def demo_ds_def
        demo_other_ds_def demo_pool_def pool_SendBatch_def pool_Exec_def Commit_loop.simps
        BatchResults_Exec_def BatchResults_Close_def)

section \<open>Queueing into a batch\<close>

lemma queue_op_statements:
  "queue_op b x = (None, b\<lparr>batch := batch b @ op_statements (table (ds b)) x\<rparr>)"
  by (cases x) (simp_all add: batch_Put_def batch_Delete_def Queue_def)

lemma queue_ops_statements:
  "queue_ops b ops =
     (replicate (length ops) None,
      b\<lparr>batch := batch b @ concat (map (op_statements (table (ds b))) ops)\<rparr>)"
  by (induction ops arbitrary: b) (simp_all add: queue_op_statements)

lemma length_op_statements: "length (op_statements t x) = 3"
  by (cases x) simp_all

lemma length_concat_op_statements:
  "length (concat (map (op_statements t) ops)) = 3 * length ops"
  by (induction ops) (simp_all add: length_op_statements)

lemma run_batch_op_statements:
  "fault p = None \<Longrightarrow>
   run_batch saved p (op_statements (relation p) x @ items) =
     (case run_batch (p\<lparr>stored := op_effect (stored p) x\<rparr>) (p\<lparr>stored := op_effect (stored p) x\<rparr>) items of
        (rs, p') \<Rightarrow> (None # None # None # rs, p'))"
  by (cases x) (simp_all add: pool_Exec_def split: prod.splits)

lemma run_batch_all_ops:
  "fault p = None \<Longrightarrow>
   run_batch saved p (concat (map (op_statements (relation p)) ops)) =
     (replicate (3 * length ops) None, p\<lparr>stored := foldl op_effect (stored p) ops\<rparr>)"
proof (induction ops arbitrary: saved p)
  case Nil
  then show ?case by simp
next
  case (Cons x ops)
  let ?q = "p\<lparr>stored := op_effect (stored p) x\<rparr>"
  have "fault ?q = None" and "relation ?q = relation p" using Cons.prems by simp_all
  with Cons.IH [of ?q ?q] have
    "run_batch ?q ?q (concat (map (op_statements (relation p)) ops)) =
       (replicate (3 * length ops) None, ?q\<lparr>stored := foldl op_effect (stored ?q) ops\<rparr>)"
    by simp
  with run_batch_op_statements [OF Cons.prems, of saved x "concat (map (op_statements (relation p)) ops)"]
  show ?case by (simp add: numeral_3_eq_3)
qed

text \<open>
  C10. Batch \<open>Put\<close> and batch \<open>Delete\<close> return nil whatever the batch, key and value, and
  each appends three statements to the queue: \<^verbatim>\<open>BEGIN\<close>, the data statement with the key
  (and value) as bound parameters, \<^verbatim>\<open>COMMIT\<close>. After any sequence of such calls on a
  fresh batch the queue is the concatenation of these triples, so \<open>Commit\<close> sends, and the
  engine answers, three statements per call; a \<open>Commit\<close> that returns nil has consumed
  all of them. Against a reachable engine that holds the table, \<open>Commit\<close> does return nil
  and leaves the rows as the calls, applied one after the other, make them.
\<close>

theorem batch_queue_three_statements_each:
  "batch_Put b k v =
     (None, b\<lparr>batch := batch b @
        [\<lparr>sql = ''BEGIN'', arguments = []\<rparr>,
         \<lparr>sql = ''INSERT INTO '' @ table (ds b)
                  @ '' (key, data) VALUES ($1, $2) ON CONFLICT (key) DO UPDATE SET data = $2'',
          arguments = [AText k, ABytea v]\<rparr>,
         \<lparr>sql = ''COMMIT'', arguments = []\<rparr>]\<rparr>)
   \<and> batch_Delete b k =
     (None, b\<lparr>batch := batch b @
        [\<lparr>sql = ''BEGIN'', arguments = []\<rparr>,
         \<lparr>sql = ''DELETE FROM '' @ table (ds b) @ '' WHERE key = $1'', arguments = [AText k]\<rparr>,
         \<lparr>sql = ''COMMIT'', arguments = []\<rparr>]\<rparr>)
   \<and> (let queued = queue_ops (fst (Batch d)) ops;
           sent = fst (pool_SendBatch (pool d) (batch (snd queued)));
           ran = batch_Commit (snd queued)
       in fst queued = replicate (length ops) None
        \<and> batch (snd queued) = concat (map (op_statements (table d)) ops)
        \<and> length (batch (snd queued)) = 3 * length ops
        \<and> length (outcomes sent) = 3 * length ops
        \<and> (fst ran = None \<longrightarrow> position (fst (snd ran)) = 3 * length ops)
        \<and> (fault (pool d) = None \<and> relation (pool d) = table d \<longrightarrow>
              fst ran = None \<and> position (fst (snd ran)) = 3 * length ops
              \<and> stored (pool (ds (snd (snd ran)))) = foldl op_effect (stored (pool d)) ops))"
proof -
  let ?b = "snd (queue_ops (fst (Batch d)) ops)"
  let ?items = "concat (map (op_statements (table d)) ops)"
  have q: "queue_ops (fst (Batch d)) ops = (replicate (length ops) None, \<lparr>ds = d, batch = ?items\<rparr>)"
    by (simp add: queue_ops_statements Batch_def)
  have items: "batch ?b = ?items" and dsb: "ds ?b = d" by (simp_all add: q)
  have len: "length ?items = 3 * length ops" by (rule length_concat_op_statements)
  obtain err res' where loop:
    "Commit_loop 0 (length ?items) (fst (pool_SendBatch (pool d) ?items)) = (err, res')"
    by (cases "Commit_loop 0 (length ?items) (fst (pool_SendBatch (pool d) ?items))")
  note sent = Commit_loop_sent [OF loop]
  have ran: "batch_Commit ?b = (err, BatchResults_Close res',
                ?b\<lparr>ds := d\<lparr>pool := snd (pool_SendBatch (pool d) ?items)\<rparr>\<rparr>)"
    using loop by (simp add: Commit_unfold items dsb)
  have pos: "err = None \<longrightarrow> position res' = 3 * length ops" using sent len by simp
  have healthy: "err = None \<and> stored (snd (pool_SendBatch (pool d) ?items)) = foldl op_effect (stored (pool d)) ops"
    if h: "fault (pool d) = None" "relation (pool d) = table d"
  proof -
    have rb: "run_batch (pool d) (pool d) ?items =
            (replicate (3 * length ops) None, (pool d)\<lparr>stored := foldl op_effect (stored (pool d)) ops\<rparr>)"
      using run_batch_all_ops [of "pool d" "pool d" ops] h by simp
    then have outs: "outcomes (fst (pool_SendBatch (pool d) ?items)) = replicate (3 * length ops) None"
      and st: "stored (snd (pool_SendBatch (pool d) ?items)) = foldl op_effect (stored (pool d)) ops"
      by (simp_all add: pool_SendBatch_def)
    have "err = None"
    proof (cases err)
      case None then show ?thesis .
    next
      case (Some e)
      with sent have "0 < position res'" and "position res' \<le> length ?items"
        and "outcomes (fst (pool_SendBatch (pool d) ?items)) ! (position res' - 1) = Some e"
        by simp_all
      with outs len show ?thesis by simp
    qed
    with st show ?thesis by simp
  qed
  have calls: "batch_Put b k v =
     (None, b\<lparr>batch := batch b @
        [\<lparr>sql = ''BEGIN'', arguments = []\<rparr>,
         \<lparr>sql = ''INSERT INTO '' @ table (ds b)
                  @ '' (key, data) VALUES ($1, $2) ON CONFLICT (key) DO UPDATE SET data = $2'',
          arguments = [AText k, ABytea v]\<rparr>,
         \<lparr>sql = ''COMMIT'', arguments = []\<rparr>]\<rparr>)
   \<and> batch_Delete b k =
     (None, b\<lparr>batch := batch b @
        [\<lparr>sql = ''BEGIN'', arguments = []\<rparr>,
         \<lparr>sql = ''DELETE FROM '' @ table (ds b) @ '' WHERE key = $1'', arguments = [AText k]\<rparr>,
         \<lparr>sql = ''COMMIT'', arguments = []\<rparr>]\<rparr>)"
    by (simp add: batch_Put_def batch_Delete_def Queue_def)
  have outlen: "length (outcomes (fst (pool_SendBatch (pool d) ?items))) = 3 * length ops"
    using SendBatch_results [of "pool d" ?items] len by simp
  show ?thesis
    unfolding Let_def
    using calls q items len outlen pos healthy ran
    by (simp add: BatchResults_Close_def)
qed

theorem batch_queue_three_statements_each_witness:
  "fst (batch_Commit (snd (queue_ops (fst (Batch demo_ds)) [OpPut ''/a'' [1], OpDelete ''/a'']))) = None
   \<and> position (fst (snd (batch_Commit
        (snd (queue_ops (fst (Batch demo_ds)) [OpPut ''/a'' [1], OpDelete ''/a'']))))) = 6
   \<and> stored (pool (ds (snd (snd (batch_Commit
        (snd (queue_ops (fst (Batch demo_ds)) [OpPut ''/a'' [1], OpDelete ''/a''])))))))
       ''/a'' = None"
proof -
  have h: "fault (pool demo_ds) = None \<and> relation (pool demo_ds) = table demo_ds"
    by (simp add: demo_ds_def demo_pool_def)
  let ?ops = "[OpPut ''/a'' [1], OpDelete ''/a'']"
  let ?ran = "batch_Commit (snd (queue_ops (fst (Batch demo_ds)) ?ops))"
  from batch_queue_three_statements_each [of "fst (Batch demo_ds)" "''/a''" "[1]" demo_ds ?ops] h
  have "fst ?ran = None \<and> position (fst (snd ?ran)) = 3 * length ?ops
        \<and> stored (pool (ds (snd (snd ?ran)))) = foldl op_effect (stored (pool demo_ds)) ?ops"
    unfolding Let_def by blast
  then show ?thesis by simp
qed

section \<open>What Query pushes down and what it composes\<close>

lemma stages_foldl_NaiveFilter:
  "stages (foldl NaiveFilter res fs) = stages res @ replicate (length fs) FilterStage"
  by (induction fs arbitrary: res) (simp_all add: replicate_app_Cons_same)

lemma Rest_foldl_NaiveFilter:
  "Rest (foldl NaiveFilter res fs) = filter (\<lambda>e. list_all (\<lambda>f. f e) fs) (Rest res)"
proof (induction fs arbitrary: res)
  case Nil
  then show ?case by simp
next
  case (Cons f fs)
  then show ?case by (simp add: conj_commute)
qed

lemma length_insert_by: "length (insert_by lt x es) = Suc (length es)"
  by (induction es) simp_all

lemma length_sort_by: "length (sort_by lt es) = length es"
  by (induction es) (simp_all add: sort_by_def length_insert_by)

lemma stages_Query_results:
  "stages (Query_results q rs) =
     replicate (length (Filters q)) FilterStage @ [OrderStage]
     @ (if (Filters q \<noteq> [] \<or> Orders q \<noteq> []) \<and> Offset q \<noteq> 0 then [OffsetStage] else [])
     @ (if (Filters q \<noteq> [] \<or> Orders q \<noteq> []) \<and> Limit q \<noteq> 0 then [LimitStage] else [])"
  by (simp add: Query_results_def Let_def stages_foldl_NaiveFilter)

lemma Rest_Query_results:
  "Rest (Query_results q rs) =
     (if Filters q = [] \<and> Orders q = [] then pull_all q rs
      else Rest (NaiveLimit (NaiveOffset (NaiveOrder
                   (foldl NaiveFilter (ResultsFromIterator q rs) (Filters q)) (Orders q))
                   (Offset q)) (Limit q)))"
  by (auto simp: Query_results_def Let_def split: list.splits)

lemma Query_sql_paging:
  "Query_sql d q = Query_select d q @ Query_where q
     @ (if Filters q = [] \<and> Orders q = [] \<and> Limit q \<noteq> 0 then '' LIMIT '' @ fmt_d (Limit q) else [])
     @ (if Filters q = [] \<and> Orders q = [] \<and> Offset q \<noteq> 0 then '' OFFSET '' @ fmt_d (Offset q)
        else [])"
  by (simp add: Query_sql_def Query_paging_def)

lemma pull_all_demo_rows:
  "\<not> KeysOnly q \<Longrightarrow> \<not> ReturnsSizes q \<Longrightarrow>
   pull_all q demo_rows = [\<lparr>Key = ''/a/1'', Value = [1, 2], Size = 0\<rparr>,
                           \<lparr>Key = ''/a/2'', Value = [3], Size = 0\<rparr>]"
  by (simp add: demo_rows_def pull_all.simps Next_def rows_Next_def Scan_key_data_def)

text \<open>
  C1, as stated, fails: the zero descriptor has no filter and no order comparator, and no
  \<^verbatim>\<open>LIMIT\<close> or \<^verbatim>\<open>OFFSET\<close> clause is appended for it.
\<close>

theorem Query_counterexample_no_clause:
  "length (Filters demo_query) = 0 \<and> length (Orders demo_query) = 0
   \<and> Query_paging demo_query = []
   \<and> Query_sql demo_ds demo_query = ''SELECT key, data FROM blocks''"
  by (simp add: demo_query_def demo_ds_def Query_sql_def Query_select_def Query_where_def
        Query_paging_def)

text \<open>
  C1, amended. The text ends with a \<^verbatim>\<open>LIMIT\<close> clause exactly when the limit is not zero and
  the descriptor has no filter and no order comparator, and with an \<^verbatim>\<open>OFFSET\<close> clause
  exactly when the offset is not zero and the descriptor has neither. With neither, no
  offset or limit stage is composed and the sequence is the iterator's. With a filter or
  an order comparator, the stages are one filter stage per filter, the order stage, the
  offset stage for an offset that is not zero, the limit stage for a limit that is not
  zero, in this order, and the sequence delivers what filter, order, offset and limit
  applied in this order deliver.
\<close>

theorem Query_pushdown_or_naive:
  "Query_sql d q = Query_select d q @ Query_where q
     @ (if Filters q = [] \<and> Orders q = [] \<and> Limit q \<noteq> 0 then '' LIMIT '' @ fmt_d (Limit q) else [])
     @ (if Filters q = [] \<and> Orders q = [] \<and> Offset q \<noteq> 0 then '' OFFSET '' @ fmt_d (Offset q)
        else [])
   \<and> (Filters q = [] \<and> Orders q = [] \<longrightarrow>
         OffsetStage \<notin> set (stages (Query_results q rs))
       \<and> LimitStage \<notin> set (stages (Query_results q rs))
       \<and> Rest (Query_results q rs) = pull_all q rs)
   \<and> (Filters q \<noteq> [] \<or> Orders q \<noteq> [] \<longrightarrow>
         stages (Query_results q rs) =
           replicate (length (Filters q)) FilterStage @ [OrderStage]
           @ (if Offset q \<noteq> 0 then [OffsetStage] else [])
           @ (if Limit q \<noteq> 0 then [LimitStage] else [])
       \<and> Rest (Query_results q rs) =
           Rest (NaiveLimit (NaiveOffset (NaiveOrder
                   (foldl NaiveFilter (ResultsFromIterator q rs) (Filters q)) (Orders q))
                   (Offset q)) (Limit q)))"
proof -
  have "Filters q = [] \<and> Orders q = [] \<longrightarrow>
         OffsetStage \<notin> set (stages (Query_results q rs))
       \<and> LimitStage \<notin> set (stages (Query_results q rs))
       \<and> Rest (Query_results q rs) = pull_all q rs"
    by (simp add: stages_Query_results Rest_Query_results)
  moreover have "Filters q \<noteq> [] \<or> Orders q \<noteq> [] \<longrightarrow>
         stages (Query_results q rs) =
           replicate (length (Filters q)) FilterStage @ [OrderStage]
           @ (if Offset q \<noteq> 0 then [OffsetStage] else [])
           @ (if Limit q \<noteq> 0 then [LimitStage] else [])
       \<and> Rest (Query_results q rs) =
           Rest (NaiveLimit (NaiveOffset (NaiveOrder
                   (foldl NaiveFilter (ResultsFromIterator q rs) (Filters q)) (Orders q))
                   (Offset q)) (Limit q))"
    using Rest_Query_results [of q rs] by (auto simp: stages_Query_results)
  ultimately show ?thesis using Query_sql_paging [of d q] by blast
qed

theorem Query_pushdown_or_naive_witness:
  "Query_sql demo_ds paged_query = ''SELECT key, data FROM blocks LIMIT 10 OFFSET 3''
   \<and> stages (Query_results paged_query demo_rows) = [OrderStage]
   \<and> Query_sql demo_ds filtered_query = ''SELECT key, data FROM blocks''
   \<and> stages (Query_results filtered_query demo_rows) = [FilterStage, OrderStage, LimitStage]
   \<and> Rest (Query_results filtered_query demo_rows) = [\<lparr>Key = ''/a/2'', Value = [3], Size = 0\<rparr>]"
proof -
  have p: "Filters paged_query = []" "Orders paged_query = []" "Limit paged_query = 10"
      "Offset paged_query = 3" "Prefix paged_query = []" "\<not> KeysOnly paged_query"
    and f: "Filters filtered_query = [\<lambda>e. Key e \<noteq> ''/a/1'']" "Orders filtered_query = []"
      "Limit filtered_query = 2" "Offset filtered_query = 0" "Prefix filtered_query = []"
      "\<not> KeysOnly filtered_query" "\<not> ReturnsSizes filtered_query"
    by (simp_all add: paged_query_def filtered_query_def demo_query_def)
  have n: "fmt_d 10 = ''10''" "fmt_d 3 = ''3''" by (simp_all add: fmt_d_def digits.simps)
  have r: "pull_all filtered_query demo_rows =
             [\<lparr>Key = ''/a/1'', Value = [1, 2], Size = 0\<rparr>, \<lparr>Key = ''/a/2'', Value = [3], Size = 0\<rparr>]"
    by (rule pull_all_demo_rows) (simp_all add: f)
  from Query_pushdown_or_naive [of demo_ds paged_query demo_rows]
       Query_pushdown_or_naive [of demo_ds filtered_query demo_rows]
  show ?thesis
    by (simp add: n r p f stages_Query_results demo_ds_def Query_select_def Query_where_def)
qed




text \<open>
  C7. With a limit of 0 there is no limit stage and the text has no \<^verbatim>\<open>LIMIT\<close> clause:
  after the prefix clause comes at most the \<^verbatim>\<open>OFFSET\<close> clause. With an offset of 0
  there is no offset stage and no \<^verbatim>\<open>OFFSET\<close> clause. With both 0 the text ends after
  the prefix clause and the sequence is that of the filter and order stages alone: it
  delivers as many entries as the rows read from the cursor that pass every filter.
\<close>

theorem Query_zero_limit_offset:
  "(Limit q = 0 \<longrightarrow>
      LimitStage \<notin> set (stages (Query_results q rs))
    \<and> Query_sql d q = Query_select d q @ Query_where q
        @ (if Filters q = [] \<and> Orders q = [] \<and> Offset q \<noteq> 0 then '' OFFSET '' @ fmt_d (Offset q)
           else []))
   \<and> (Offset q = 0 \<longrightarrow>
      OffsetStage \<notin> set (stages (Query_results q rs))
    \<and> Query_sql d q = Query_select d q @ Query_where q
        @ (if Filters q = [] \<and> Orders q = [] \<and> Limit q \<noteq> 0 then '' LIMIT '' @ fmt_d (Limit q)
           else []))
   \<and> (Limit q = 0 \<and> Offset q = 0 \<longrightarrow>
      Query_sql d q = Query_select d q @ Query_where q
    \<and> Rest (Query_results q rs) =
        Rest (NaiveOrder (foldl NaiveFilter (ResultsFromIterator q rs) (Filters q)) (Orders q))
    \<and> length (Rest (Query_results q rs)) =
        length (filter (\<lambda>e. list_all (\<lambda>f. f e) (Filters q)) (pull_all q rs)))"
proof -
  have a: "Limit q = 0 \<longrightarrow>
      LimitStage \<notin> set (stages (Query_results q rs))
    \<and> Query_sql d q = Query_select d q @ Query_where q
        @ (if Filters q = [] \<and> Orders q = [] \<and> Offset q \<noteq> 0 then '' OFFSET '' @ fmt_d (Offset q)
           else [])"
    by (simp add: stages_Query_results Query_sql_paging)
  have b: "Offset q = 0 \<longrightarrow>
      OffsetStage \<notin> set (stages (Query_results q rs))
    \<and> Query_sql d q = Query_select d q @ Query_where q
        @ (if Filters q = [] \<and> Orders q = [] \<and> Limit q \<noteq> 0 then '' LIMIT '' @ fmt_d (Limit q)
           else [])"
    by (simp add: stages_Query_results Query_sql_paging)
  have c: "Rest (Query_results q rs) =
        Rest (NaiveOrder (foldl NaiveFilter (ResultsFromIterator q rs) (Filters q)) (Orders q))"
    if "Limit q = 0" "Offset q = 0"
    using that by (simp add: Query_results_def Let_def)
  have d: "length (Rest (NaiveOrder (foldl NaiveFilter (ResultsFromIterator q rs) (Filters q)) (Orders q)))
           = length (filter (\<lambda>e. list_all (\<lambda>f. f e) (Filters q)) (pull_all q rs))"
    by (simp add: Rest_foldl_NaiveFilter length_sort_by split: list.splits)
  show ?thesis using a b c d by (simp add: Query_sql_paging)
qed

theorem Query_zero_limit_offset_witness:
  "Query_sql demo_ds demo_query = ''SELECT key, data FROM blocks''
   \<and> stages (Query_results demo_query demo_rows) = [OrderStage]
   \<and> Rest (Query_results demo_query demo_rows) =
       [\<lparr>Key = ''/a/1'', Value = [1, 2], Size = 0\<rparr>, \<lparr>Key = ''/a/2'', Value = [3], Size = 0\<rparr>]"
proof -
  have z: "Limit demo_query = 0" "Offset demo_query = 0" "Filters demo_query = []"
      "Orders demo_query = []" "Prefix demo_query = []" "\<not> KeysOnly demo_query"
      "\<not> ReturnsSizes demo_query"
    by (simp_all add: demo_query_def)
  have r: "pull_all demo_query demo_rows =
             [\<lparr>Key = ''/a/1'', Value = [1, 2], Size = 0\<rparr>, \<lparr>Key = ''/a/2'', Value = [3], Size = 0\<rparr>]"
    by (rule pull_all_demo_rows) (simp_all add: z)
  from Query_zero_limit_offset [of demo_query demo_rows demo_ds] z
  show ?thesis
    by (simp add: r z stages_Query_results demo_ds_def Query_select_def Query_where_def)
qed

section \<open>The prefix clause\<close>

lemma like_match_percent: "like_match ''%'' s"
  by (induction s) simp_all

lemma like_match_literal_prefix:
  "CHR ''%'' \<notin> set p \<Longrightarrow> CHR ''_'' \<notin> set p \<Longrightarrow> CHR 0x5C \<notin> set p \<Longrightarrow>
   like_match (p @ ''/%'') k = (\<exists>s. k = p @ ''/'' @ s)"
proof (induction p arbitrary: k)
  case Nil
  show ?case
  proof (cases k)
    case Nil
    then show ?thesis by simp
  next
    case (Cons c cs)
    have "like_match ''/%'' (c # cs) = (c = CHR ''/'' \<and> like_match ''%'' cs)" by simp
    with like_match_percent [of cs] Cons show ?thesis by (auto simp del: like_match.simps)
  qed
next
  case (Cons a p)
  then show ?case by (cases k) auto
qed

text \<open>
  C3. For a prefix that is not empty and whose canonical form is not the root, the text is
  the projection, then \<^verbatim>\<open> WHERE key LIKE '<canonical prefix>/%' ORDER BY key\<close>, then the
  paging clauses. For the empty prefix and for one that canonicalizes to the root, nothing
  is put between the projection and the paging clauses. The prefix \<open>/a\<close> is canonical;
  its pattern matches \<open>/a/1\<close> and no key that starts with \<open>/ab\<close>. More generally the
  pattern of a canonical prefix free of the pattern characters matches exactly the keys
  that extend the prefix by a slash.
\<close>

theorem Query_prefix_clause:
  "(Prefix q \<noteq> [] \<and> NewKey_String (Prefix q) \<noteq> ''/'' \<longrightarrow>
      Query_sql d q = Query_select d q
        @ '' WHERE key LIKE '' @ [CHR 0x27] @ NewKey_String (Prefix q) @ ''/%'' @ [CHR 0x27]
        @ '' ORDER BY key'' @ Query_paging q)
   \<and> (Prefix q = [] \<or> NewKey_String (Prefix q) = ''/'' \<longrightarrow>
      Query_where q = [] \<and> Query_sql d q = Query_select d q @ Query_paging q)
   \<and> NewKey_String ''/a'' = ''/a''
   \<and> like_match (NewKey_String ''/a'' @ ''/%'') ''/a/1''
   \<and> (\<forall>s. \<not> like_match (NewKey_String ''/a'' @ ''/%'') (''/ab'' @ s))
   \<and> (\<forall>p k. CHR ''%'' \<notin> set p \<and> CHR ''_'' \<notin> set p \<and> CHR 0x5C \<notin> set p \<longrightarrow>
         like_match (p @ ''/%'') k = (\<exists>s. k = p @ ''/'' @ s))"
proof -
  have a: "NewKey_String ''/a'' = ''/a''"
    by (simp add: NewKey_String_def path_Clean_rooted_def)
  have m: "like_match ''/a/%'' ''/a/1''" by simp
  have n: "\<forall>s. \<not> like_match ''/a/%'' (''/ab'' @ s)" by simp
  have c: "Prefix q \<noteq> [] \<and> NewKey_String (Prefix q) \<noteq> ''/'' \<longrightarrow>
      Query_sql d q = Query_select d q
        @ '' WHERE key LIKE '' @ [CHR 0x27] @ NewKey_String (Prefix q) @ ''/%'' @ [CHR 0x27]
        @ '' ORDER BY key'' @ Query_paging q"
    by (simp add: Query_sql_def Query_where_def Let_def)
  have e: "Prefix q = [] \<or> NewKey_String (Prefix q) = ''/'' \<longrightarrow>
      Query_where q = [] \<and> Query_sql d q = Query_select d q @ Query_paging q"
    by (auto simp: Query_sql_def Query_where_def Let_def)
  show ?thesis using a m n c e like_match_literal_prefix by (simp del: like_match.simps)
qed

theorem Query_prefix_clause_witness:
  "Query_sql demo_ds prefix_a_query =
     ''SELECT key, data FROM blocks WHERE key LIKE '' @ [CHR 0x27] @ ''/a/%'' @ [CHR 0x27]
       @ '' ORDER BY key''
   \<and> Query_sql demo_ds root_prefix_query = ''SELECT key, data FROM blocks''
   \<and> Query_sql demo_ds demo_query = ''SELECT key, data FROM blocks''
   \<and> like_match ''/a/%'' ''/a/1'' \<and> \<not> like_match ''/a/%'' ''/ab''"
proof -
  have k: "NewKey_String ''/a'' = ''/a''" "NewKey_String ''/'' = ''/''"
    by (simp_all add: NewKey_String_def path_Clean_rooted_def)
  have f: "Prefix prefix_a_query = ''/a''" "Prefix root_prefix_query = ''/''"
      "Prefix demo_query = []" "\<not> KeysOnly prefix_a_query" "\<not> KeysOnly root_prefix_query"
      "\<not> KeysOnly demo_query"
      "Query_paging prefix_a_query = []" "Query_paging root_prefix_query = []"
      "Query_paging demo_query = []"
    by (simp_all add: prefix_a_query_def root_prefix_query_def demo_query_def Query_paging_def)
  from Query_prefix_clause [of prefix_a_query demo_ds] Query_prefix_clause [of root_prefix_query demo_ds]
       Query_prefix_clause [of demo_query demo_ds]
  show ?thesis
    by (simp add: k f Query_select_def demo_ds_def)
qed

section \<open>Projection and decoding\<close>

lemma pull_all_exhausted: "pending rs = [] \<Longrightarrow> pull_all q rs = []"
  by (simp add: pull_all.simps Next_def rows_Next_def split: option.splits)

lemma pull_all_key_size:
  "KeysOnly q \<Longrightarrow> ReturnsSizes q \<Longrightarrow>
   pull_all q (rs\<lparr>pending := map (\<lambda>(k, n). [CText k, CInt n]) kns\<rparr>) =
     map (\<lambda>(k, n). \<lparr>Key = k, Value = [], Size = n\<rparr>) kns"
proof (induction kns arbitrary: rs)
  case Nil
  then show ?case by (simp add: pull_all_exhausted)
next
  case (Cons kn kns)
  obtain k n where kn: "kn = (k, n)" by (cases kn)
  from Cons.prems have
    "pull_all q (rs\<lparr>pending := [CText k, CInt n] # map (\<lambda>(k, n). [CText k, CInt n]) kns\<rparr>) =
       \<lparr>Key = k, Value = [], Size = n\<rparr>
       # pull_all q (rs\<lparr>pending := map (\<lambda>(k, n). [CText k, CInt n]) kns\<rparr>)"
    by (subst pull_all.simps) (simp add: Next_def rows_Next_def Scan_key_size_def)
  with Cons.IH [OF Cons.prems, of rs] kn show ?case by simp
qed

lemma pull_all_key:
  "KeysOnly q \<Longrightarrow> \<not> ReturnsSizes q \<Longrightarrow>
   pull_all q (rs\<lparr>pending := map (\<lambda>k. [CText k]) ks\<rparr>) =
     map (\<lambda>k. \<lparr>Key = k, Value = [], Size = 0\<rparr>) ks"
proof (induction ks arbitrary: rs)
  case Nil
  then show ?case by (simp add: pull_all_exhausted)
next
  case (Cons k ks)
  from Cons.prems have
    "pull_all q (rs\<lparr>pending := [CText k] # map (\<lambda>k. [CText k]) ks\<rparr>) =
       \<lparr>Key = k, Value = [], Size = 0\<rparr> # pull_all q (rs\<lparr>pending := map (\<lambda>k. [CText k]) ks\<rparr>)"
    by (subst pull_all.simps) (simp add: Next_def rows_Next_def Scan_key_def)
  with Cons.IH [OF Cons.prems, of rs] show ?case by simp
qed

lemma pull_all_key_data:
  "\<not> KeysOnly q \<Longrightarrow>
   pull_all q (rs\<lparr>pending := map (\<lambda>(k, v). [CText k, CBytea v]) kvs\<rparr>) =
     map (\<lambda>(k, v). \<lparr>Key = k, Value = v,
                     Size = (if ReturnsSizes q then int (length v) else 0)\<rparr>) kvs"
proof (induction kvs arbitrary: rs)
  case Nil
  then show ?case by (simp add: pull_all_exhausted)
next
  case (Cons kv kvs)
  obtain k v where kv: "kv = (k, v)" by (cases kv)
  from Cons.prems have
    "pull_all q (rs\<lparr>pending := [CText k, CBytea v] # map (\<lambda>(k, v). [CText k, CBytea v]) kvs\<rparr>) =
       \<lparr>Key = k, Value = v, Size = (if ReturnsSizes q then int (length v) else 0)\<rparr>
       # pull_all q (rs\<lparr>pending := map (\<lambda>(k, v). [CText k, CBytea v]) kvs\<rparr>)"
    by (subst pull_all.simps) (simp add: Next_def rows_Next_def Scan_key_data_def)
  with Cons.IH [OF Cons.prems, of rs] kv show ?case by simp
qed

lemma Next_keys_only_no_value:
  "KeysOnly q \<Longrightarrow> Next q rs = ((res, True), rs') \<Longrightarrow> Value (Entry res) = []"
  by (auto simp: Next_def rows_Next_def split: list.splits option.splits sum.splits if_splits)

lemma pull_all_keys_only_no_value:
  "KeysOnly q \<Longrightarrow> e \<in> set (pull_all q rs) \<Longrightarrow> Value e = []"
proof (induction q rs rule: pull_all.induct)
  case (1 q rs)
  obtain res ok rs' where nx: "Next q rs = ((res, ok), rs')"
    by (cases "Next q rs") auto
  show ?case
  proof (cases ok)
    case False
    with nx "1.prems" show ?thesis by (simp add: pull_all.simps [of q rs])
  next
    case True
    with nx "1.prems" have "e = Entry res \<or> e \<in> set (pull_all q rs')"
      by (simp add: pull_all.simps [of q rs])
    then show ?thesis
    proof
      assume "e = Entry res"
      with Next_keys_only_no_value [of q rs res rs'] nx True "1.prems" show ?thesis by simp
    next
      assume "e \<in> set (pull_all q rs')"
      with "1.IH" [of "(res, ok)" rs' res ok] nx True "1.prems" show ?thesis by simp
    qed
  qed
qed

text \<open>
  C4. Keys-only with sizes: the text selects \<^verbatim>\<open>key, octet_length(data)\<close>, and rows of a
  key and a number are decoded into entries with that key and size and no value. Keys-only
  alone: the text selects \<^verbatim>\<open>key\<close>, and rows of a key are decoded into entries with the
  key, no value and size 0. Otherwise: the text selects \<^verbatim>\<open>key, data\<close>, and rows of a key
  and a value are decoded into entries with both, the size being the length of the value
  when sizes are asked for and 0 when not. Whatever the cursor holds, no entry of a
  keys-only query carries a value.
\<close>

theorem Query_projection_and_decoding:
  "(KeysOnly q \<and> ReturnsSizes q \<longrightarrow>
      Query_sql d q = ''SELECT key, octet_length(data) FROM '' @ table d
                        @ Query_where q @ Query_paging q
    \<and> pull_all q (rs\<lparr>pending := map (\<lambda>(k, n). [CText k, CInt n]) kns\<rparr>) =
        map (\<lambda>(k, n). \<lparr>Key = k, Value = [], Size = n\<rparr>) kns)
   \<and> (KeysOnly q \<and> \<not> ReturnsSizes q \<longrightarrow>
      Query_sql d q = ''SELECT key FROM '' @ table d @ Query_where q @ Query_paging q
    \<and> pull_all q (rs\<lparr>pending := map (\<lambda>k. [CText k]) ks\<rparr>) =
        map (\<lambda>k. \<lparr>Key = k, Value = [], Size = 0\<rparr>) ks)
   \<and> (\<not> KeysOnly q \<longrightarrow>
      Query_sql d q = ''SELECT key, data FROM '' @ table d @ Query_where q @ Query_paging q
    \<and> pull_all q (rs\<lparr>pending := map (\<lambda>(k, v). [CText k, CBytea v]) kvs\<rparr>) =
        map (\<lambda>(k, v). \<lparr>Key = k, Value = v,
                        Size = (if ReturnsSizes q then int (length v) else 0)\<rparr>) kvs)
   \<and> (KeysOnly q \<longrightarrow> (\<forall>e \<in> set (pull_all q rs). Value e = []))"
  using pull_all_key_size [where q = q and rs = rs and kns = kns]
        pull_all_key [where q = q and rs = rs and ks = ks]
        pull_all_key_data [where q = q and rs = rs and kvs = kvs]
        pull_all_keys_only_no_value [where q = q and rs = rs]
  by (auto simp: Query_sql_def Query_select_def)

theorem Query_projection_and_decoding_witness:
  "Query_sql demo_ds sizes_query = ''SELECT key, octet_length(data) FROM blocks''
   \<and> pull_all sizes_query demo_size_rows =
        [\<lparr>Key = ''/a/1'', Value = [], Size = 2\<rparr>, \<lparr>Key = ''/a/2'', Value = [], Size = 1\<rparr>]
   \<and> pull_all sizes_query demo_rows = []
   \<and> pull_all demo_query demo_rows =
        [\<lparr>Key = ''/a/1'', Value = [1, 2], Size = 0\<rparr>, \<lparr>Key = ''/a/2'', Value = [3], Size = 0\<rparr>]"
proof -
  have f: "KeysOnly sizes_query" "ReturnsSizes sizes_query" "Prefix sizes_query = []"
      "Query_paging sizes_query = []" "Query_where sizes_query = []"
      "\<not> KeysOnly demo_query" "\<not> ReturnsSizes demo_query"
    by (simp_all add: sizes_query_def demo_query_def Query_paging_def Query_where_def)
  have s: "demo_size_rows = demo_size_rows\<lparr>pending := map (\<lambda>(k, n). [CText k, CInt n])
                                              [(''/a/1'', 2), (''/a/2'', 1)]\<rparr>"
    and r: "demo_rows = demo_rows\<lparr>pending := map (\<lambda>(k, v). [CText k, CBytea v])
                                              [(''/a/1'', [1, 2]), (''/a/2'', [3])]\<rparr>"
    by (simp_all add: demo_size_rows_def demo_rows_def)
  have x: "pull_all sizes_query demo_rows = []"
    by (simp add: demo_rows_def pull_all.simps Next_def rows_Next_def Scan_key_size_def f)
  from Query_projection_and_decoding
          [where q = sizes_query and d = demo_ds and rs = demo_size_rows
             and kns = "[(''/a/1'', 2), (''/a/2'', 1)]"]
       Query_projection_and_decoding
          [where q = demo_query and d = demo_ds and rs = demo_rows
             and kvs = "[(''/a/1'', [1, 2]), (''/a/2'', [3])]"]
  show ?thesis
    using f s [symmetric] r [symmetric] x by (simp add: demo_ds_def)
qed

section \<open>Per-call values in the statement text\<close>

text \<open>
  C8 does not hold for \<open>Query\<close>: the canonical prefix is written into the text and the
  statement carries no bound parameter. For the prefix \<^verbatim>\<open>/a' OR key LIKE '\<close> the quotes of
  the prefix end the string literal of the pattern, and the text handed to the engine is
  \<^verbatim>\<open>SELECT key, data FROM blocks WHERE key LIKE '/a' OR key LIKE '/%' ORDER BY key\<close>.
\<close>

theorem Query_prefix_in_text:
  "Query_statement demo_ds quoted_prefix_query =
     \<lparr>sql = ''SELECT key, data FROM blocks WHERE key LIKE '' @ [CHR 0x27] @ ''/a'' @ [CHR 0x27]
              @ '' OR key LIKE '' @ [CHR 0x27] @ ''/%'' @ [CHR 0x27] @ '' ORDER BY key'',
      arguments = []\<rparr>"
  by (simp add: Query_statement_def Query_sql_def Query_select_def Query_where_def
        Query_paging_def quoted_prefix_query_def demo_query_def demo_ds_def NewKey_String_def
        path_Clean_rooted_def)

end
